theory Spec2Isabelle
  imports Main "HOL-Library.Word"
begin

unbundle bit_operations_syntax

section \<open>Buffers and fixed-width coding\<close>

text \<open>
  A \<^verbatim>\<open>Buffer\<close> is a byte array and a \<^verbatim>\<open>Slice\<close> wraps one
  (\<^verbatim>\<open>size\<close> and \<^verbatim>\<open>length\<close> are the buffer's length), so both are
  lists of bytes here. JavaScript exceptions are values of \<open>error\<close>: a failed
  \<^verbatim>\<open>assert\<close> is \<open>AssertionError\<close>, an access outside a buffer by a
  coding routine is \<open>RangeError\<close>, a member access on \<^verbatim>\<open>undefined\<close> is
  \<open>TypeError\<close>, a rejected environment call is \<open>IOError\<close>.
\<close>

type_synonym byte = "8 word"
type_synonym Buffer = "byte list"

datatype error = AssertionError | RangeError | TypeError | IOError

text \<open>
  Modelled from the spec: Buffer.ts is not among the sources. \<^verbatim>\<open>Buffer.alloc(n)\<close>
  is \<open>n\<close> zero bytes.
\<close>

definition alloc :: "nat \<Rightarrow> Buffer" where
  "alloc n = replicate n 0"

text \<open>
  Modelled from the spec: Buffer.ts is not among the sources. \<^verbatim>\<open>slice(start, end)\<close>
  follows the typed-array rule: a negative index counts from the end, and both indices
  are clamped to the buffer.
\<close>

definition js_index :: "nat \<Rightarrow> int \<Rightarrow> nat" where
  "js_index len i = (if i < 0 then nat (max 0 (int len + i)) else min (nat i) len)"

definition slice :: "Buffer \<Rightarrow> int \<Rightarrow> int \<Rightarrow> Buffer" where
  "slice buf s e =
     (let a = js_index (length buf) s; b = js_index (length buf) e
      in take (b - a) (drop a buf))"

definition slice_from :: "Buffer \<Rightarrow> int \<Rightarrow> Buffer" where
  "slice_from buf s = slice buf s (int (length buf))"

text \<open>
  Modelled from the spec: Buffer.ts is not among the sources. \<^verbatim>\<open>fillInt(v, start, end)\<close>
  stores the byte \<open>v\<close> at the positions \<open>start \<le> i < end\<close>;
  \<^verbatim>\<open>fillBuffer(src, start, end)\<close> stores the bytes of \<open>src\<close> there, repeating
  \<open>src\<close> when it is shorter than the range.
\<close>

definition fillInt :: "Buffer \<Rightarrow> nat \<Rightarrow> nat \<Rightarrow> nat \<Rightarrow> Buffer" where
  "fillInt buf v s e =
     map (\<lambda>i. if s \<le> i \<and> i < e then word_of_nat v else buf ! i) [0..<length buf]"

definition fillBuffer :: "Buffer \<Rightarrow> Buffer \<Rightarrow> nat \<Rightarrow> nat \<Rightarrow> Buffer" where
  "fillBuffer buf src s e =
     map (\<lambda>i. if s \<le> i \<and> i < e \<and> src \<noteq> [] then src ! ((i - s) mod length src) else buf ! i)
       [0..<length buf]"

text \<open>
  Modelled from the spec: Coding.ts is not among the sources. Section 4.1:
  \<^verbatim>\<open>encode_fixed32/64\<close> are little-endian. \<open>decodeLE\<close> reads a byte list as a
  little-endian number.
\<close>

fun decodeLE :: "Buffer \<Rightarrow> nat" where
  "decodeLE [] = 0"
| "decodeLE (b # bs) = unat b + 256 * decodeLE bs"

definition encodeFixed64 :: "nat \<Rightarrow> error + Buffer" where
  "encodeFixed64 v =
     (if v < 2 ^ 64
      then Inr [word_of_nat v, word_of_nat (v div 2 ^ 8), word_of_nat (v div 2 ^ 16),
                word_of_nat (v div 2 ^ 24), word_of_nat (v div 2 ^ 32),
                word_of_nat (v div 2 ^ 40), word_of_nat (v div 2 ^ 48),
                word_of_nat (v div 2 ^ 56)]
      else Inl RangeError)"

definition decodeFixed64 :: "Buffer \<Rightarrow> error + nat" where
  "decodeFixed64 buf = (if length buf < 8 then Inl RangeError else Inr (decodeLE (take 8 buf)))"

definition decodeFixed32 :: "Buffer \<Rightarrow> error + nat" where
  "decodeFixed32 buf = (if length buf < 4 then Inl RangeError else Inr (decodeLE (take 4 buf)))"

section \<open>Format.ts: internal keys\<close>

datatype ValueType = kTypeDeletion | kTypeValue

fun ValueType_num :: "ValueType \<Rightarrow> nat" where
  "ValueType_num kTypeDeletion = 0"
| "ValueType_num kTypeValue = 1"

definition kValueTypeForSeek :: ValueType where
  "kValueTypeForSeek = kTypeValue"

definition kMaxSequenceNumber :: nat where
  "kMaxSequenceNumber = push_bit 56 1 - 1"

text \<open>
  \<^verbatim>\<open>ParsedInternalKey\<close>. The field \<open>valueType\<close> is a number: \<^verbatim>\<open>parseInternalKey\<close>
  stores the raw last byte there.
\<close>

record ParsedInternalKey =
  userKey :: Buffer
  sn :: nat
  valueType :: nat

definition packSequenceAndType :: "nat \<Rightarrow> ValueType \<Rightarrow> error + nat" where
  "packSequenceAndType seq t =
     (if \<not> seq \<le> kMaxSequenceNumber then Inl AssertionError
      else if \<not> ValueType_num t \<le> ValueType_num kValueTypeForSeek then Inl AssertionError
      else Inr (push_bit 8 seq OR ValueType_num t))"

definition appendInternalKey :: "Buffer \<Rightarrow> ParsedInternalKey \<Rightarrow> error + Buffer" where
  "appendInternalKey buf key =
     (case encodeFixed64 (sn key) of
        Inl e \<Rightarrow> Inl e
      | Inr sequenceBuf \<Rightarrow> Inr (buf @ userKey key @ fillInt sequenceBuf (valueType key) 7 8))"

definition extractUserKey :: "Buffer \<Rightarrow> error + Buffer" where
  "extractUserKey ikey =
     (if \<not> 8 \<le> length ikey then Inl AssertionError
      else Inr (slice ikey 0 (int (length ikey) - 8)))"

text \<open>\<^verbatim>\<open>new InternalKey(userKey, sn, valueType)\<close>: the buffer of the new key.\<close>

definition InternalKey_new :: "Buffer \<Rightarrow> nat \<Rightarrow> ValueType \<Rightarrow> error + Buffer" where
  "InternalKey_new uk s t =
     appendInternalKey [] \<lparr>userKey = uk, sn = s, valueType = ValueType_num t\<rparr>"

text \<open>
  The accessors \<^verbatim>\<open>InternalKey.type\<close> (the last byte; \<^verbatim>\<open>undefined\<close>, here
  \<open>None\<close>, on an empty buffer) and \<^verbatim>\<open>InternalKey.sequence\<close>.
\<close>

definition InternalKey_type :: "Buffer \<Rightarrow> nat option" where
  "InternalKey_type buffer =
     (if buffer = [] then None else Some (unat (buffer ! (length buffer - 1))))"

definition InternalKey_sequence :: "Buffer \<Rightarrow> error + nat" where
  "InternalKey_sequence buffer =
     (let sequenceBuf = fillBuffer (alloc 8) (slice_from buffer (int (length buffer) - 8)) 0 7
      in decodeFixed32 sequenceBuf)"

text \<open>
  \<^verbatim>\<open>parseInternalKey\<close> returns false where anything in its \<^verbatim>\<open>try\<close> block throws;
  the result is \<open>None\<close> then, and the parsed key otherwise.
\<close>

definition parseInternalKey :: "Buffer \<Rightarrow> ParsedInternalKey option" where
  "parseInternalKey internalKey =
     (case extractUserKey internalKey of
        Inl e \<Rightarrow> None
      | Inr uk \<Rightarrow>
          (let snBuf = fillBuffer (alloc 8)
                 (slice_from internalKey (int (length internalKey) - 8)) 0 7
           in case decodeFixed64 snBuf of
                Inl e \<Rightarrow> None
              | Inr s \<Rightarrow>
                  Some \<lparr>userKey = uk, sn = s,
                        valueType = unat (internalKey ! (length internalKey - 1))\<rparr>))"

text \<open>
  The user comparator is the constructor argument of \<^verbatim>\<open>InternalKeyComparator\<close>
  (the interface \<^verbatim>\<open>Comparator\<close>): its \<^verbatim>\<open>compare\<close>, and its
  \<^verbatim>\<open>findShortestSeparator\<close>, which rewrites its first argument in place and is
  a function to the new contents here.
\<close>

record Comparator =
  ucompare :: "Buffer \<Rightarrow> Buffer \<Rightarrow> int"
  ufindShortestSeparator :: "Buffer \<Rightarrow> Buffer \<Rightarrow> error + Buffer"

definition oneByte :: Buffer where
  "oneByte = alloc 1"

definition InternalKeyComparator_compare :: "Comparator \<Rightarrow> Buffer \<Rightarrow> Buffer \<Rightarrow> error + int" where
  "InternalKeyComparator_compare uc key1 key2 =
     (case extractUserKey key1 of
        Inl e \<Rightarrow> Inl e
      | Inr userKey1 \<Rightarrow>
     (case extractUserKey key2 of
        Inl e \<Rightarrow> Inl e
      | Inr userKey2 \<Rightarrow>
     (let r = ucompare uc userKey1 userKey2 in
      if r \<noteq> 0 then Inr r
      else
     (case decodeFixed64
             (slice key1 (int (length key1) - 8) (int (length key1) - 1) @ oneByte) of
        Inl e \<Rightarrow> Inl e
      | Inr sn1 \<Rightarrow>
     (case decodeFixed64
             (slice key2 (int (length key2) - 8) (int (length key2) - 1) @ oneByte) of
        Inl e \<Rightarrow> Inl e
      | Inr sn2 \<Rightarrow>
          if sn1 = sn2 then Inr 0 else Inr (if sn1 > sn2 then - 1 else 1))))))"

definition InternalKeyComparator_findShortestSeparator ::
    "Comparator \<Rightarrow> Buffer \<Rightarrow> Buffer \<Rightarrow> error + Buffer" where
  "InternalKeyComparator_findShortestSeparator uc start limit =
     (case extractUserKey start of
        Inl e \<Rightarrow> Inl e
      | Inr userStart \<Rightarrow>
     (case extractUserKey limit of
        Inl e \<Rightarrow> Inl e
      | Inr userLimit \<Rightarrow>
     (case ufindShortestSeparator uc userStart userLimit of
        Inl e \<Rightarrow> Inl e
      | Inr tmp \<Rightarrow>
          if length tmp < length userStart \<and> ucompare uc userStart tmp < 0
          then
            (case packSequenceAndType kMaxSequenceNumber kValueTypeForSeek of
               Inl e \<Rightarrow> Inl e
             | Inr packed \<Rightarrow>
            (case encodeFixed64 packed of
               Inl e \<Rightarrow> Inl e
             | Inr tail \<Rightarrow>
            (let tmp' = tmp @ tail in
             case InternalKeyComparator_compare uc start tmp' of
               Inl e \<Rightarrow> Inl e
             | Inr c1 \<Rightarrow>
                 if \<not> c1 < 0 then Inl AssertionError
                 else
                   (case InternalKeyComparator_compare uc tmp' limit of
                      Inl e \<Rightarrow> Inl e
                    | Inr c2 \<Rightarrow> if \<not> c2 < 0 then Inl AssertionError else Inr tmp'))))
          else Inr start)))"

text \<open>
  Modelled from the spec: Comparator.ts is not among the sources. Section 2: the user
  comparator is byte-lexicographic, with the helper \<^verbatim>\<open>findShortestSeparator\<close>,
  which (section 4.2) shortens \<open>start\<close>: at the first byte where \<open>start\<close> and
  \<open>limit\<close> differ, the byte is incremented and the rest dropped when the result
  stays below \<open>limit\<close>.
\<close>

fun Buffer_compare :: "Buffer \<Rightarrow> Buffer \<Rightarrow> int" where
  "Buffer_compare [] [] = 0"
| "Buffer_compare [] (y # ys) = - 1"
| "Buffer_compare (x # xs) [] = 1"
| "Buffer_compare (x # xs) (y # ys) =
     (if x < y then - 1 else if y < x then 1 else Buffer_compare xs ys)"

fun Bytewise_findShortestSeparator :: "Buffer \<Rightarrow> Buffer \<Rightarrow> Buffer" where
  "Bytewise_findShortestSeparator [] limit = []"
| "Bytewise_findShortestSeparator (x # xs) [] = x # xs"
| "Bytewise_findShortestSeparator (x # xs) (y # ys) =
     (if x = y then x # Bytewise_findShortestSeparator xs ys
      else if x < 255 \<and> unat x + 1 < unat y then [x + 1]
      else x # xs)"

definition BytewiseComparator :: Comparator where
  "BytewiseComparator =
     \<lparr>ucompare = Buffer_compare,
      ufindShortestSeparator = (\<lambda>start limit. Inr (Bytewise_findShortestSeparator start limit))\<rparr>"

section \<open>Filename.ts\<close>

text \<open>
  \<^verbatim>\<open>String(num)\<close> for a file number, a non-negative integer: its decimal digits
  without leading zeros.
\<close>

definition digit_char :: "nat \<Rightarrow> char" where
  "digit_char d = ''0123456789'' ! d"

function String_of_number :: "nat \<Rightarrow> string" where
  "String_of_number n =
     (if n < 10 then [digit_char n]
      else String_of_number (n div 10) @ [digit_char (n mod 10)])"
  by pat_completeness auto
termination
  by (relation "measure id") auto

declare String_of_number.simps [simp del]

text \<open>The loop of \<^verbatim>\<open>numberToString\<close>: a zero is put in front while the string is shorter than 6.\<close>

function numberToString_loop :: "string \<Rightarrow> string" where
  "numberToString_loop str =
     (if length str < 6 then numberToString_loop (CHR ''0'' # str) else str)"
  by pat_completeness auto
termination
  by (relation "measure (\<lambda>str. 6 - length str)") auto

declare numberToString_loop.simps [simp del]

definition numberToString :: "nat \<Rightarrow> string" where
  "numberToString num = numberToString_loop (String_of_number num)"

text \<open>
  Modelled from the spec: \<^verbatim>\<open>path.resolve\<close> of DBHelper.ts is not among the sources.
  Section 6: all files are under \<^verbatim>\<open>dbpath\<close>; the name is put after the directory.
\<close>

definition path_resolve :: "string \<Rightarrow> string \<Rightarrow> string" where
  "path_resolve dir name = dir @ ''/'' @ name"

definition getCurrentFilename :: "string \<Rightarrow> string" where
  "getCurrentFilename dbpath = path_resolve dbpath ''CURRENT''"

definition getLogFilename :: "string \<Rightarrow> nat \<Rightarrow> string" where
  "getLogFilename dbpath logNumber = path_resolve dbpath (numberToString logNumber @ ''.log'')"

definition getTableFilename :: "string \<Rightarrow> nat \<Rightarrow> string" where
  "getTableFilename dbpath tableNumber =
     path_resolve dbpath (numberToString tableNumber @ ''.ldb'')"

definition getManifestFilename :: "string \<Rightarrow> nat \<Rightarrow> string" where
  "getManifestFilename dbpath manifestNumber =
     path_resolve dbpath (''MANIFEST-'' @ numberToString manifestNumber)"

definition getTempFilename :: "string \<Rightarrow> nat \<Rightarrow> error + string" where
  "getTempFilename dbpath num =
     (if \<not> num > 0 then Inl AssertionError
      else Inr (path_resolve dbpath (String_of_number num @ ''.dbtmp'')))"

section \<open>Compaction.ts\<close>

text \<open>
  Of \<^verbatim>\<open>Options\<close> and \<^verbatim>\<open>FileMetaData\<close> (Options.ts and VersionFormat.ts
  are not among the sources) the fields the code below reads. A \<^verbatim>\<open>Version\<close> holds
  its files by level; \<open>versionSet_options v\<close> is \<^verbatim>\<open>v.versionSet._options\<close>.
\<close>

record Options =
  maxFileSize :: nat

record FileMetaData =
  number :: nat
  fileSize :: nat
  smallest :: Buffer
  largest :: Buffer

record Version =
  files :: "FileMetaData list list"
  versionSet_options :: Options

definition kNumLevels :: nat where
  "kNumLevels = 7"

text \<open>
  The fields \<^verbatim>\<open>inputVersion\<close> and \<^verbatim>\<open>grandparents\<close> are declared without a
  value and the constructor does not assign them: they are \<^verbatim>\<open>undefined\<close>
  (\<open>None\<close>) until \<^verbatim>\<open>VersionSet\<close> sets them.
\<close>

record Compaction =
  level :: nat
  inputVersion :: "Version option"
  grandparents :: "FileMetaData list option"
  inputs :: "FileMetaData list \<times> FileMetaData list"
  grandparentIndex :: nat
  seenKey :: bool
  overlappedBytes :: nat
  maxOutputFilesize :: nat
  levelPtrs :: "nat list"

definition targetFileSize :: "Options \<Rightarrow> nat" where
  "targetFileSize options = maxFileSize options"

definition maxGrandParentOverlapBytes :: "Options \<Rightarrow> nat" where
  "maxGrandParentOverlapBytes options = 10 * targetFileSize options"

definition totalFileSize :: "FileMetaData list \<Rightarrow> nat" where
  "totalFileSize fs = foldl (\<lambda>sum file. sum + fileSize file) 0 fs"

definition Compaction_maxFileSizeForLevel :: "Options \<Rightarrow> nat \<Rightarrow> nat" where
  "Compaction_maxFileSizeForLevel options lvl = targetFileSize options"

definition Compaction_new :: "Options \<Rightarrow> nat \<Rightarrow> Compaction" where
  "Compaction_new options lvl =
     \<lparr>level = lvl, inputVersion = None, grandparents = None, inputs = ([], []),
      grandparentIndex = 0, seenKey = False, overlappedBytes = 0,
      maxOutputFilesize = Compaction_maxFileSizeForLevel options lvl,
      levelPtrs = replicate kNumLevels 0\<rparr>"

definition numInputFiles :: "Compaction \<Rightarrow> nat \<Rightarrow> nat" where
  "numInputFiles c which =
     (if which = 0 then length (fst (inputs c)) else length (snd (inputs c)))"

text \<open>
  \<^verbatim>\<open>isTrivialMove\<close> reads \<^verbatim>\<open>this.inputVersion.versionSet\<close> first, and the
  grandparents only where the first two conjuncts hold (\<^verbatim>\<open>&&\<close> stops at the first
  false one); iterating over \<^verbatim>\<open>undefined\<close> throws.
\<close>

definition isTrivialMove :: "Compaction \<Rightarrow> error + bool" where
  "isTrivialMove c =
     (case inputVersion c of
        None \<Rightarrow> Inl TypeError
      | Some v \<Rightarrow>
          if numInputFiles c 0 = 1 \<and> numInputFiles c 1 = 0
          then (case grandparents c of
                  None \<Rightarrow> Inl TypeError
                | Some gs \<Rightarrow>
                    Inr (totalFileSize gs \<le> maxGrandParentOverlapBytes (versionSet_options v)))
          else Inr False)"

section \<open>VersionSet\<close>

text \<open>
  \<^verbatim>\<open>compactRange(level, begin, end)\<close>. Version.ts is not among the sources:
  the files that \<^verbatim>\<open>this._current.getOverlappingInputs(level, begin, end)\<close> returns
  are the argument \<open>overlapping\<close>. \<open>compactRange_loop limit tot fs\<close> is the
  \<^verbatim>\<open>for\<close> loop from a position where \<open>fs\<close> are the files still ahead and
  \<open>tot\<close> (the variable \<^verbatim>\<open>total\<close>) the bytes counted so far; its result is
  what is kept of \<open>fs\<close>.
\<close>

fun compactRange_loop :: "nat \<Rightarrow> nat \<Rightarrow> FileMetaData list \<Rightarrow> FileMetaData list" where
  "compactRange_loop limit tot [] = []"
| "compactRange_loop limit tot (f # fs) =
     (let tot' = tot + fileSize f
      in if tot' \<ge> limit then [f] else f # compactRange_loop limit tot' fs)"

definition VersionSet_maxFileSizeForLevel :: "Options \<Rightarrow> nat \<Rightarrow> nat" where
  "VersionSet_maxFileSizeForLevel options lvl = maxFileSize options"

text \<open>
  The level-\<open>L\<close> inputs \<^verbatim>\<open>compactRange\<close> stores in
  \<^verbatim>\<open>compaction.inputs[0]\<close> before it calls \<^verbatim>\<open>setupOtherInputs\<close>; \<open>None\<close>
  where it returns no compaction.
\<close>

definition compactRange_inputs ::
    "Options \<Rightarrow> nat \<Rightarrow> FileMetaData list \<Rightarrow> FileMetaData list option" where
  "compactRange_inputs options lvl overlapping =
     (if length overlapping = 0 then None
      else Some (if lvl > 0
                 then compactRange_loop (VersionSet_maxFileSizeForLevel options lvl) 0 overlapping
                 else overlapping))"

text \<open>
  The end of \<^verbatim>\<open>setupOtherInputs\<close>: the grandparents are assigned only where
  \<open>level + 2 < kNumLevels\<close>. \<open>overlapping\<close> stands for the files that
  \<^verbatim>\<open>this._current.getOverlappingInputs(level + 2, allStart, allLimit)\<close> returns
  (Version.ts is not among the sources).
\<close>

definition setupOtherInputs_grandparents :: "Compaction \<Rightarrow> FileMetaData list \<Rightarrow> Compaction" where
  "setupOtherInputs_grandparents c overlapping =
     (if level c + 2 < kNumLevels then c\<lparr>grandparents := Some overlapping\<rparr> else c)"

text \<open>
  \<^verbatim>\<open>logAndApply\<close>. Of the version set and of the edit (VersionEdit.ts is not among
  the sources) the fields that \<^verbatim>\<open>logAndApply\<close> reads and writes.
  \<open>vs_manifestWriter\<close> is the open \<^verbatim>\<open>LogWriter\<close>, by the name of its file,
  \<open>None\<close> where the field is \<^verbatim>\<open>undefined\<close>.
\<close>

record VersionEdit =
  hasLogNumber :: bool
  edit_logNumber :: nat
  hasPrevLogNumber :: bool
  edit_prevLogNumber :: nat
  edit_nextFileNumber :: nat
  edit_lastSequence :: nat

record VersionSet =
  vs_current :: Version
  vs_logNumber :: nat
  vs_prevLogNumber :: nat
  vs_lastSequence :: nat
  vs_manifestFileNumber :: nat
  vs_nextFileNumber :: nat
  vs_dbpath :: string
  vs_manifestWriter :: "string option"

text \<open>
  The environment (section 1: an external collaborator): the names of the files that
  exist and the contents of CURRENT. \<open>io\<close> says which environment calls of one
  \<^verbatim>\<open>logAndApply\<close> succeed: opening the new MANIFEST, writing the snapshot record,
  writing the edit's record, writing CURRENT, closing the writer, unlinking the
  MANIFEST. A rejected \<^verbatim>\<open>open\<close>, \<^verbatim>\<open>close\<close> or \<^verbatim>\<open>unlink\<close> is not
  caught by \<^verbatim>\<open>logAndApply\<close>; a rejected write makes the \<^verbatim>\<open>Status\<close> not ok.
\<close>

record Env =
  env_files :: "string set"
  env_current :: "string option"

record io =
  open_ok :: bool
  snapshot_ok :: bool
  record_ok :: bool
  current_ok :: bool
  close_ok :: bool
  unlink_ok :: bool

text \<open>
  The first part of \<^verbatim>\<open>logAndApply\<close>: the asserts and the fields it fills in
  on the edit.
\<close>

definition logAndApply_prepare :: "VersionSet \<Rightarrow> VersionEdit \<Rightarrow> error + VersionEdit" where
  "logAndApply_prepare vs edit =
     (if hasLogNumber edit \<and> \<not> edit_logNumber edit \<ge> vs_logNumber vs then Inl AssertionError
      else if hasLogNumber edit \<and> \<not> edit_logNumber edit < vs_nextFileNumber vs
      then Inl AssertionError
      else
        (let edit1 = (if hasLogNumber edit then edit
                      else edit\<lparr>edit_logNumber := vs_logNumber vs\<rparr>);
             edit2 = (if \<not> hasPrevLogNumber edit1
                      then edit1\<lparr>edit_prevLogNumber := vs_prevLogNumber vs\<rparr> else edit1)
         in Inr (edit2\<lparr>edit_nextFileNumber := vs_nextFileNumber vs,
                        edit_lastSequence := vs_lastSequence vs\<rparr>)))"

text \<open>
  \<open>build\<close> is \<^verbatim>\<open>VersionBuilder\<close> (not among the sources): the version that
  \<^verbatim>\<open>apply\<close>, \<^verbatim>\<open>saveTo\<close> and \<^verbatim>\<open>finalize\<close> make of the current one and the
  edit, or what they throw. The result is the returned status (ok or not), the version
  set and the environment after the call; \<open>Inl\<close> where the call throws. The two
  asserts of \<^verbatim>\<open>appendVersion\<close> (the new version has no references and is not the
  current one) are about a \<^verbatim>\<open>Version\<close> object just made and are left out.
\<close>

definition logAndApply ::
    "io \<Rightarrow> (Version \<Rightarrow> VersionEdit \<Rightarrow> error + Version) \<Rightarrow> Env \<Rightarrow> VersionSet
       \<Rightarrow> VersionEdit \<Rightarrow> error + (bool \<times> VersionSet \<times> Env)" where
  "logAndApply oc build env vs edit0 =
     (case logAndApply_prepare vs edit0 of
        Inl e \<Rightarrow> Inl e
      | Inr edit \<Rightarrow>
     (case build (vs_current vs) edit of
        Inl e \<Rightarrow> Inl e
      | Inr ver \<Rightarrow>
     (let fresh = (vs_manifestWriter vs = None);
          manifestFilename =
            (if fresh then getManifestFilename (vs_dbpath vs) (vs_manifestFileNumber vs)
             else [])
      in if fresh \<and> \<not> open_ok oc then Inl IOError
         else
     (let env1 = (if fresh then env\<lparr>env_files := insert manifestFilename (env_files env)\<rparr>
                  else env);
          vs1 = (if fresh then vs\<lparr>vs_manifestWriter := Some manifestFilename\<rparr> else vs);
          status1 = (if fresh then snapshot_ok oc else True);
          status2 = (if status1 then record_ok oc else status1);
          written = (status2 \<and> length manifestFilename > 0);
          status3 = (if written then current_ok oc else status2);
          env2 = (if written \<and> status3
                  then env1\<lparr>env_current :=
                         Some (drop (length (vs_dbpath vs) + 1) manifestFilename @ [CHR 0x0A])\<rparr>
                  else env1)
      in if status3
         then
           (if manifestFilename \<noteq> [] \<and> \<not> close_ok oc then Inl IOError
            else
              (let vs2 = (if manifestFilename \<noteq> [] then vs1\<lparr>vs_manifestWriter := None\<rparr>
                          else vs1)
               in Inr (status3,
                       vs2\<lparr>vs_current := ver, vs_logNumber := edit_logNumber edit,
                            vs_prevLogNumber := edit_prevLogNumber edit\<rparr>,
                       env2)))
         else
           (if manifestFilename \<noteq> []
            then
              (if \<not> close_ok oc then Inl IOError
               else if \<not> unlink_ok oc then Inl IOError
               else Inr (status3, vs1\<lparr>vs_manifestWriter := None\<rparr>,
                         env2\<lparr>env_files := env_files env2 - {manifestFilename}\<rparr>))
            else Inr (status3, vs1, env2))))))"

section \<open>MemTable\<close>

text \<open>
  Modelled from the spec: \<^verbatim>\<open>varint\<close> of DBHelper.ts is not among the sources.
  Section 4.1: 7-bit groups, lowest first, the high bit set on every byte but the last.
  Decoding fails where the bytes end before a byte without the high bit.
\<close>

function varint_encode :: "nat \<Rightarrow> Buffer" where
  "varint_encode n =
     (if n < 128 then [word_of_nat n]
      else word_of_nat (n mod 128 + 128) # varint_encode (n div 128))"
  by pat_completeness auto
termination
  by (relation "measure id") auto

declare varint_encode.simps [simp del]

fun varint_decode :: "Buffer \<Rightarrow> error + nat" where
  "varint_decode [] = Inl RangeError"
| "varint_decode (b # bs) =
     (if b < 128 then Inr (unat b)
      else (case varint_decode bs of
              Inl e \<Rightarrow> Inl e
            | Inr v \<Rightarrow> Inr (unat b - 128 + 128 * v)))"

text \<open>
  Modelled from the spec: Skiplist.ts is not among the sources. Section 4.4:
  \<^verbatim>\<open>add\<close> builds the encoded record and inserts it into the skiplist; the field
  \<open>m_list\<close> of a \<^verbatim>\<open>MemTable\<close> holds the records put so far, the latest first.
\<close>

record MemTable =
  m_immutable :: bool
  m_internalKeyComparator :: Comparator
  m_list :: "Buffer list"
  m_size :: nat
  m_refs :: int

definition MemTable_new :: "Comparator \<Rightarrow> MemTable" where
  "MemTable_new internalKeyComparator =
     \<lparr>m_immutable = False, m_internalKeyComparator = internalKeyComparator,
      m_list = [], m_size = 0, m_refs = 0\<rparr>"

definition MemTable_ref :: "MemTable \<Rightarrow> MemTable" where
  "MemTable_ref m = m\<lparr>m_refs := m_refs m + 1\<rparr>"

definition MemTable_unref :: "MemTable \<Rightarrow> MemTable" where
  "MemTable_unref m = m\<lparr>m_refs := m_refs m - 1\<rparr>"

text \<open>The setter \<^verbatim>\<open>set immutable(next)\<close>.\<close>

definition MemTable_set_immutable :: "MemTable \<Rightarrow> bool \<Rightarrow> MemTable" where
  "MemTable_set_immutable m next = (if next then m\<lparr>m_immutable := True\<rparr> else m)"

definition MemTable_add ::
    "MemTable \<Rightarrow> nat \<Rightarrow> ValueType \<Rightarrow> Buffer \<Rightarrow> Buffer option \<Rightarrow> error + MemTable" where
  "MemTable_add m sequence vt key val =
     (let keySize = length key;
          valueSize = (case val of None \<Rightarrow> 0 | Some v \<Rightarrow> length v);
          internalKeySize = keySize + 8;
          valueSizeBuf = varint_encode valueSize;
          encodedLength0 = internalKeySize + valueSize + length valueSizeBuf;
          internalKeySizeBuf = varint_encode internalKeySize;
          encodedLength = encodedLength0 + length internalKeySizeBuf
      in case encodeFixed64 sequence of
           Inl e \<Rightarrow> Inl e
         | Inr sequenceBuf0 \<Rightarrow>
             (let sequenceBuf = fillInt sequenceBuf0 (ValueType_num vt) 7 8;
                  buf = internalKeySizeBuf @ key @ sequenceBuf @ valueSizeBuf
                          @ (case val of None \<Rightarrow> alloc 0 | Some v \<Rightarrow> v)
              in if \<not> encodedLength = length buf then Inl AssertionError
                 else Inr (m\<lparr>m_list := buf # m_list m, m_size := m_size m + length buf\<rparr>)))"

text \<open>
  The calls that change a \<^verbatim>\<open>MemTable\<close> (\<^verbatim>\<open>get\<close>, \<^verbatim>\<open>iterator\<close> and the
  getters only read it). \<open>MemTable_apply\<close> is the object after one call: a call that
  throws leaves it as it was, since \<^verbatim>\<open>add\<close> writes its fields only after its
  last assert.
\<close>

datatype MemTable_call =
    Ref
  | Unref
  | SetImmutable bool
  | Add nat ValueType Buffer "Buffer option"

fun MemTable_apply :: "MemTable \<Rightarrow> MemTable_call \<Rightarrow> MemTable" where
  "MemTable_apply m Ref = MemTable_ref m"
| "MemTable_apply m Unref = MemTable_unref m"
| "MemTable_apply m (SetImmutable next) = MemTable_set_immutable m next"
| "MemTable_apply m (Add sequence vt key val) =
     (case MemTable_add m sequence vt key val of Inl e \<Rightarrow> m | Inr m' \<Rightarrow> m')"

section \<open>BloomFilter.ts\<close>

text \<open>
  JavaScript's number operators on integers: \<^verbatim>\<open>>>\<close>, \<^verbatim>\<open><<\<close> and \<^verbatim>\<open>|\<close>
  work on the operands as signed 32-bit integers; \<^verbatim>\<open>%\<close> takes the sign of the
  dividend and is \<^verbatim>\<open>NaN\<close> (\<open>None\<close>) for a zero divisor.
\<close>

definition js_shr :: "int \<Rightarrow> nat \<Rightarrow> int" where
  "js_shr x n = sint (signed_drop_bit n (word_of_int x :: 32 word))"

definition js_shl :: "int \<Rightarrow> nat \<Rightarrow> int" where
  "js_shl x n = sint (push_bit n (word_of_int x :: 32 word))"

definition js_or :: "int \<Rightarrow> int \<Rightarrow> int" where
  "js_or a b = sint ((word_of_int a :: 32 word) OR word_of_int b)"

definition js_rem :: "int \<Rightarrow> int \<Rightarrow> int option" where
  "js_rem a b = (if b = 0 then None else Some (sgn a * (\<bar>a\<bar> mod \<bar>b\<bar>)))"

text \<open>
  Modelled from the spec: BitBuffer.ts is not among the sources. Its test
  (\<^verbatim>\<open>src/unnamed/part_001\<close>) shows a bit array over a byte buffer: a bit that was set
  reads true from a second \<^verbatim>\<open>BitBuffer\<close> over the same bytes, and a bit outside the
  buffer reads false. Bit \<open>i\<close> is bit \<open>i mod 8\<close> of byte \<open>i div 8\<close>; the index
  is taken as an unsigned 32-bit number for the byte and as a shift count for the
  mask, so a negative index reads false. \<^verbatim>\<open>resizeBits\<close> grows the buffer with zero
  bytes to hold the given number of bits.
\<close>

definition BitBuffer_bits :: "Buffer \<Rightarrow> nat" where
  "BitBuffer_bits buf = length buf * 8"

definition BitBuffer_resizeBits :: "Buffer \<Rightarrow> nat \<Rightarrow> Buffer" where
  "BitBuffer_resizeBits buf bits =
     (let nextSize = (bits + 7) div 8
      in if nextSize > length buf then buf @ replicate (nextSize - length buf) 0 else buf)"

definition BitBuffer_get :: "Buffer \<Rightarrow> int option \<Rightarrow> bool" where
  "BitBuffer_get buf index =
     (case index of
        None \<Rightarrow> buf \<noteq> [] \<and> bit (buf ! 0) (0::nat)
      | Some i \<Rightarrow>
          (let pos = nat (i mod 2 ^ 32) div 8;
               sh = nat ((sgn i * (\<bar>i\<bar> mod 8)) mod 32)
           in pos < length buf \<and> sh < 8 \<and> bit (buf ! pos) sh))"

text \<open>
  \<^verbatim>\<open>hash\<close> of Hash.ts is not among the sources: it is the parameter \<open>hash\<close>, from
  the bytes and the seed to a JavaScript number.
\<close>

definition bloomHash :: "(Buffer \<Rightarrow> nat \<Rightarrow> int) \<Rightarrow> Buffer \<Rightarrow> int" where
  "bloomHash hash key = hash key 0xbc9f1d34"

record BloomFilter =
  bf_buffer :: Buffer
  bf_offset :: nat
  bf_size :: nat
  bf_kNumber :: nat
  bf_bitBuffer :: Buffer
  bf_bitsPerKey :: nat

text \<open>
  \<^verbatim>\<open>Math.round(bitsPerKey * 0.69)\<close> for a natural \<^verbatim>\<open>bitsPerKey\<close>, in exact
  arithmetic (7 for the default 10, as in floating point).
\<close>

definition round_069 :: "nat \<Rightarrow> nat" where
  "round_069 bitsPerKey = (69 * bitsPerKey + 50) div 100"

text \<open>
  The constructor; \<^verbatim>\<open>buffer\<close> absent or empty is \<open>[]\<close>. It throws where the
  last byte of the buffer is not a complete varint.
\<close>

definition BloomFilter_new :: "Buffer \<Rightarrow> nat \<Rightarrow> error + BloomFilter" where
  "BloomFilter_new buffer bitsPerKey =
     (let k = round_069 bitsPerKey
      in if length buffer = 0
         then Inr \<lparr>bf_buffer = varint_encode k, bf_offset = 0,
                   bf_size = length (varint_encode k), bf_kNumber = k,
                   bf_bitBuffer = alloc ((k + 7) div 8), bf_bitsPerKey = bitsPerKey\<rparr>
         else
           (let bitBuffer = slice buffer 0 (int (length buffer) - 1)
            in case varint_decode (slice_from buffer (int (length buffer) - 1)) of
                 Inl e \<Rightarrow> Inl e
               | Inr kNumber \<Rightarrow>
                   if kNumber \<noteq> k
                   then
                     (let buffer' = slice buffer 0 (int (length buffer) - 1) @ varint_encode k
                      in Inr \<lparr>bf_buffer = buffer', bf_offset = 0, bf_size = length buffer',
                               bf_kNumber = k, bf_bitBuffer = BitBuffer_resizeBits bitBuffer k,
                               bf_bitsPerKey = bitsPerKey\<rparr>)
                   else Inr \<lparr>bf_buffer = buffer, bf_offset = 0, bf_size = length buffer,
                             bf_kNumber = kNumber, bf_bitBuffer = bitBuffer,
                             bf_bitsPerKey = bitsPerKey\<rparr>))"

text \<open>
  The loop of \<^verbatim>\<open>keyMayMatch\<close>, with the number of rounds still to run
  (\<^verbatim>\<open>filter.kNumber - j\<close>), the current \<^verbatim>\<open>h\<close> and \<^verbatim>\<open>delta\<close>.
\<close>

fun keyMayMatch_loop :: "Buffer \<Rightarrow> nat \<Rightarrow> int \<Rightarrow> int \<Rightarrow> bool" where
  "keyMayMatch_loop bitBuffer 0 h delta = True"
| "keyMayMatch_loop bitBuffer (Suc n) h delta =
     (let bitPosition = js_rem h (int (BitBuffer_bits bitBuffer))
      in if \<not> BitBuffer_get bitBuffer bitPosition then False
         else keyMayMatch_loop bitBuffer n (h + delta) delta)"

definition keyMayMatch :: "(Buffer \<Rightarrow> nat \<Rightarrow> int) \<Rightarrow> Buffer \<Rightarrow> Buffer \<Rightarrow> error + bool" where
  "keyMayMatch hash key bloomFilter =
     (case BloomFilter_new bloomFilter 10 of
        Inl e \<Rightarrow> Inl e
      | Inr filter' \<Rightarrow>
          if bf_kNumber filter' > 30 then Inr True
          else
            (let h = bloomHash hash key;
                 delta = js_or (js_shr h 17) (js_shl h 15)
             in Inr (keyMayMatch_loop (bf_bitBuffer filter') (bf_kNumber filter') h delta)))"

section \<open>Internal keys: order and packing\<close>

lemma upt_0_8: "[0..<8] = [0, 1, 2, 3, 4, 5, 6, 7]"
  by (simp add: upt_conv_Cons)

lemma fillInt_8:
  "fillInt [a, b, c, d, e, f, g, h] v 7 8 = [a, b, c, d, e, f, g, word_of_nat v]"
  by (simp add: fillInt_def upt_0_8)

lemma fillBuffer_8:
  "fillBuffer (alloc 8) [a, b, c, d, e, f, g, h] 0 7 = [a, b, c, d, e, f, g, 0]"
  by (simp add: fillBuffer_def alloc_def upt_0_8)

lemma decodeLE_append: "decodeLE (xs @ ys) = decodeLE xs + 256 ^ length xs * decodeLE ys"
  by (induction xs) (auto simp: algebra_simps)

lemma slice_tail8: "slice_from (u @ t) (int (length (u @ t)) - int (length t)) = t"
  by (simp add: slice_from_def slice_def js_index_def Let_def)

lemma slice_seq7:
  "length t = 8 \<Longrightarrow>
   slice (u @ t) (int (length (u @ t)) - 8) (int (length (u @ t)) - 1) = take 7 t"
proof -
  assume "length t = 8"
  moreover have "nat (7 + int (length u)) - length u = 7" by simp
  ultimately show ?thesis by (simp add: slice_def js_index_def Let_def)
qed

lemma extractUserKey_append:
  "length t = 8 \<Longrightarrow> extractUserKey (u @ t) = Inr u"
  by (simp add: extractUserKey_def slice_def js_index_def Let_def)

lemma extractUserKey_Inr: "extractUserKey k = Inr u \<Longrightarrow> 8 \<le> length k"
  by (simp add: extractUserKey_def split: if_splits)

text \<open>
  What \<^verbatim>\<open>compare\<close> does order by: the user keys where the user comparator tells
  them apart, and else the 56-bit number in the first seven bytes of the tail, the
  larger one first. The last byte of the tail, the type, is not read.
\<close>

lemma compare_user_keys:
  "extractUserKey a = Inr ua \<Longrightarrow> extractUserKey b = Inr ub \<Longrightarrow> ucompare uc ua ub \<noteq> 0 \<Longrightarrow>
   InternalKeyComparator_compare uc a b = Inr (ucompare uc ua ub)"
  by (simp add: InternalKeyComparator_compare_def Let_def)

lemma compare_by_sequence:
  assumes "length ta = 8" and "length tb = 8" and "ucompare uc ua ub = 0"
  shows "InternalKeyComparator_compare uc (ua @ ta) (ub @ tb) =
     Inr (if decodeLE (take 7 ta) = decodeLE (take 7 tb) then 0
          else if decodeLE (take 7 ta) > decodeLE (take 7 tb) then - 1 else 1)"
proof -
  have a: "decodeFixed64 (take 7 ta @ oneByte) = Inr (decodeLE (take 7 ta))"
    using assms(1) by (simp add: decodeFixed64_def oneByte_def alloc_def decodeLE_append)
  have b: "decodeFixed64 (take 7 tb @ oneByte) = Inr (decodeLE (take 7 tb))"
    using assms(2) by (simp add: decodeFixed64_def oneByte_def alloc_def decodeLE_append)
  show ?thesis
    using assms slice_seq7[of ta ua] slice_seq7[of tb ub]
    by (simp add: InternalKeyComparator_compare_def extractUserKey_append Let_def a b)
qed

lemma compare_same:
  assumes "extractUserKey a = Inr ua" and "ucompare uc ua ua = 0"
  shows "InternalKeyComparator_compare uc a a = Inr 0"
proof -
  have len: "8 \<le> length a" using assms(1) by (rule extractUserKey_Inr)
  then have "nat (int (length a) - 1) - nat (int (length a) - 8) = 7" and "a \<noteq> []"
    by auto
  then have "length (slice a (int (length a) - 8) (int (length a) - 1) @ oneByte) = 8"
    using len by (simp add: slice_def js_index_def Let_def oneByte_def alloc_def)
  then obtain s where
    "decodeFixed64 (slice a (int (length a) - 8) (int (length a) - 1) @ oneByte) = Inr s"
    by (simp add: decodeFixed64_def)
  with assms show ?thesis
    by (simp add: InternalKeyComparator_compare_def Let_def)
qed

lemma compare_type_ignored:
  assumes "length sa = 7" and "ucompare uc u u = 0"
  shows "InternalKeyComparator_compare uc (u @ sa @ [t1]) (u @ sa @ [t2]) = Inr 0"
  using compare_by_sequence[of "sa @ [t1]" "sa @ [t2]" uc u u] assms by simp

text \<open>
  Claim C1. \<^verbatim>\<open>InternalKeyComparator.compare\<close> orders internal keys by ascending user
  key, then by descending sequence number, then by descending type. The first two
  hold (\<open>compare_user_keys\<close>, \<open>compare_by_sequence\<close>); the third does not: the
  keys \<open>(k, 5, kTypeValue)\<close> and \<open>(k, 5, kTypeDeletion)\<close>, as the constructor of
  \<^verbatim>\<open>InternalKey\<close> packs them, compare equal, where the claim has the first one less.
\<close>

theorem compare_ignores_type:
  "InternalKey_new [107] 5 kTypeValue = Inr [107, 5, 0, 0, 0, 0, 0, 0, 1] \<and>
   InternalKey_new [107] 5 kTypeDeletion = Inr [107, 5, 0, 0, 0, 0, 0, 0, 0] \<and>
   InternalKeyComparator_compare BytewiseComparator
     [107, 5, 0, 0, 0, 0, 0, 0, 1] [107, 5, 0, 0, 0, 0, 0, 0, 0] = Inr 0"
proof -
  have "InternalKeyComparator_compare BytewiseComparator
     ([107] @ [5, 0, 0, 0, 0, 0, 0, 1]) ([107] @ [5, 0, 0, 0, 0, 0, 0, 0]) = Inr 0"
    by (subst compare_by_sequence) (simp_all add: BytewiseComparator_def)
  then show ?thesis
    by (simp add: InternalKey_new_def appendInternalKey_def encodeFixed64_def fillInt_8)
qed

lemma InternalKey_new_max:
  "InternalKey_new u kMaxSequenceNumber t =
     Inr (u @ [255, 255, 255, 255, 255, 255, 255, word_of_nat (ValueType_num t)])"
  by (simp add: InternalKey_new_def appendInternalKey_def encodeFixed64_def
      kMaxSequenceNumber_def fillInt_8)

text \<open>The maximum sequence number comes back from \<^verbatim>\<open>parseInternalKey\<close>.\<close>

lemma parseInternalKey_max:
  "parseInternalKey (u @ [255, 255, 255, 255, 255, 255, 255, word_of_nat (ValueType_num t)]) =
     Some \<lparr>userKey = u, sn = kMaxSequenceNumber, valueType = ValueType_num t\<rparr>"
  using slice_tail8[of u "[255, 255, 255, 255, 255, 255, 255, word_of_nat (ValueType_num t)]"]
  apply (simp add: parseInternalKey_def extractUserKey_append fillBuffer_8 decodeFixed64_def
      kMaxSequenceNumber_def nth_append)
  apply (cases t; simp)
  done

lemma unat_byte_of_nat: "unat (word_of_nat x :: byte) = x mod 256"
  by (simp add: unat_of_nat)

lemma mod_step: "(x::nat) mod (256 * m) = x mod 256 + 256 * ((x div 256) mod m)"
  by (simp add: mod_mult2_eq)

lemma seven_digits:
  fixes s :: nat
  assumes "s < 2 ^ 56"
  shows "s mod 256 + 256 * ((s div 2 ^ 8) mod 256 + 256 * ((s div 2 ^ 16) mod 256 +
         256 * ((s div 2 ^ 24) mod 256 + 256 * ((s div 2 ^ 32) mod 256 +
         256 * ((s div 2 ^ 40) mod 256 + 256 * ((s div 2 ^ 48) mod 256)))))) = s"
proof -
  have d: "s div 2 ^ 8 = s div 256" "s div 2 ^ 16 = s div 256 div 256"
    "s div 2 ^ 24 = s div 256 div 256 div 256" "s div 2 ^ 32 = s div 256 div 256 div 256 div 256"
    "s div 2 ^ 40 = s div 256 div 256 div 256 div 256 div 256"
    "s div 2 ^ 48 = s div 256 div 256 div 256 div 256 div 256 div 256"
    by (simp_all add: div_mult2_eq[symmetric])
  have "s div 256 div 256 div 256 div 256 div 256 div 256 < 256"
    using assms by (simp add: div_mult2_eq[symmetric] less_mult_imp_div_less)
  then show ?thesis unfolding d by simp
qed

text \<open>
  Packing and then \<^verbatim>\<open>parseInternalKey\<close> gives back every sequence number below
  \<open>2\<^sup>5\<^sup>6\<close>; the accessor \<^verbatim>\<open>InternalKey.sequence\<close> gives back its low 32 bits.
\<close>

lemma parseInternalKey_InternalKey_new:
  assumes "s < 2 ^ 56"
  shows "\<exists>k. InternalKey_new u s t = Inr k \<and>
          parseInternalKey k = Some \<lparr>userKey = u, sn = s, valueType = ValueType_num t\<rparr>"
proof -
  let ?tail = "[word_of_nat s, word_of_nat (s div 2 ^ 8), word_of_nat (s div 2 ^ 16),
                word_of_nat (s div 2 ^ 24), word_of_nat (s div 2 ^ 32),
                word_of_nat (s div 2 ^ 40), word_of_nat (s div 2 ^ 48),
                word_of_nat (ValueType_num t)] :: Buffer"
  have s64: "s < 2 ^ 64" using assms by (rule less_trans) simp
  have new: "InternalKey_new u s t = Inr (u @ ?tail)"
    using s64 by (simp add: InternalKey_new_def appendInternalKey_def encodeFixed64_def fillInt_8)
  have ty: "ValueType_num t mod 256 = ValueType_num t"
    by (cases t) simp_all
  have "parseInternalKey (u @ ?tail) = Some \<lparr>userKey = u, sn = s, valueType = ValueType_num t\<rparr>"
    using slice_tail8[of u ?tail] seven_digits[OF assms]
    by (simp add: parseInternalKey_def extractUserKey_append fillBuffer_8 decodeFixed64_def
        nth_append unat_byte_of_nat ty)
  with new show ?thesis by blast
qed

lemma four_digits:
  fixes s :: nat
  shows "s mod 256 + 256 * ((s div 2 ^ 8) mod 256 + 256 * ((s div 2 ^ 16) mod 256 +
         256 * ((s div 2 ^ 24) mod 256))) = s mod 2 ^ 32"
proof -
  have d: "s div 2 ^ 8 = s div 256" "s div 2 ^ 16 = s div 256 div 256"
    "s div 2 ^ 24 = s div 256 div 256 div 256"
    by (simp_all add: div_mult2_eq[symmetric])
  have "s mod 2 ^ 32 = s mod (256 * (256 * (256 * 256)))" by simp
  also have "\<dots> = s mod 256 + 256 * (s div 256 mod 256 + 256 * (s div 256 div 256 mod 256 +
         256 * (s div 256 div 256 div 256 mod 256)))"
    by (simp only: mod_step mod_mod_trivial)
  finally show ?thesis unfolding d by simp
qed

lemma InternalKey_sequence_low32:
  assumes "s < 2 ^ 64"
  shows "\<exists>k. InternalKey_new u s t = Inr k \<and> InternalKey_sequence k = Inr (s mod 2 ^ 32)"
proof -
  let ?tail = "[word_of_nat s, word_of_nat (s div 2 ^ 8), word_of_nat (s div 2 ^ 16),
                word_of_nat (s div 2 ^ 24), word_of_nat (s div 2 ^ 32),
                word_of_nat (s div 2 ^ 40), word_of_nat (s div 2 ^ 48),
                word_of_nat (ValueType_num t)] :: Buffer"
  have new: "InternalKey_new u s t = Inr (u @ ?tail)"
    using assms by (simp add: InternalKey_new_def appendInternalKey_def encodeFixed64_def fillInt_8)
  have "InternalKey_sequence (u @ ?tail) = Inr (s mod 2 ^ 32)"
    using slice_tail8[of u ?tail] four_digits[of s]
    by (simp add: InternalKey_sequence_def fillBuffer_8 decodeFixed32_def unat_byte_of_nat)
  with new show ?thesis by blast
qed

text \<open>
  Claim C2. An internal key packed with the maximum sequence number \<open>2\<^sup>5\<^sup>6 - 1\<close> gives
  that number back through \<^verbatim>\<open>parseInternalKey\<close> and through the accessor
  \<^verbatim>\<open>InternalKey.sequence\<close>. The first holds (\<open>parseInternalKey_max\<close>); the accessor
  decodes its eight bytes with \<^verbatim>\<open>decodeFixed32\<close> and returns \<open>2\<^sup>3\<^sup>2 - 1\<close>, for
  every user key and type.
\<close>

theorem sequence_accessor_truncates:
  "\<exists>k. InternalKey_new u kMaxSequenceNumber t = Inr k \<and>
       InternalKey_sequence k = Inr 4294967295 \<and>
       parseInternalKey k =
         Some \<lparr>userKey = u, sn = 72057594037927935, valueType = ValueType_num t\<rparr>"
proof -
  let ?k = "u @ [255, 255, 255, 255, 255, 255, 255, word_of_nat (ValueType_num t)]"
  have "InternalKey_sequence ?k = Inr 4294967295"
    using slice_tail8[of u "[255, 255, 255, 255, 255, 255, 255, word_of_nat (ValueType_num t)]"]
    by (simp add: InternalKey_sequence_def fillBuffer_8 decodeFixed32_def)
  moreover have "parseInternalKey ?k =
      Some \<lparr>userKey = u, sn = 72057594037927935, valueType = ValueType_num t\<rparr>"
    by (simp add: parseInternalKey_max kMaxSequenceNumber_def)
  ultimately show ?thesis
    using InternalKey_new_max[of u t] by blast
qed

section \<open>File names\<close>

lemma String_of_number_5: "String_of_number 5 = ''5''"
  by (simp add: String_of_number.simps digit_char_def)

lemma numberToString_loop_pad:
  "numberToString_loop str = replicate (6 - length str) CHR ''0'' @ str"
proof (induction str rule: numberToString_loop.induct)
  case (1 str)
  show ?case
  proof (cases "length str < 6")
    case True
    then have "6 - length str = Suc (6 - length (CHR ''0'' # str))" by simp
    with True 1 show ?thesis
      by (subst numberToString_loop.simps) (simp add: replicate_append_same)
  next
    case False
    then show ?thesis by (subst numberToString_loop.simps) simp
  qed
qed

lemma numberToString_5: "numberToString 5 = ''000005''"
  by (simp add: numberToString_def String_of_number_5 numberToString_loop.simps)

lemma length_String_of_number:
  "n < 10 ^ k \<Longrightarrow> 0 < k \<Longrightarrow> length (String_of_number n) \<le> k"
proof (induction n arbitrary: k rule: String_of_number.induct)
  case (1 n)
  show ?case
  proof (cases "n < 10")
    case True
    then show ?thesis using 1(3) by (subst String_of_number.simps) simp
  next
    case False
    then obtain j where k: "k = Suc j" using 1(3) by (cases k) auto
    have "j > 0" using False 1(2) k by (cases j) auto
    moreover have "n div 10 < 10 ^ j"
      using 1(2) k by (simp add: less_mult_imp_div_less mult.commute)
    ultimately have "length (String_of_number (n div 10)) \<le> j"
      using 1(1)[OF False] by simp
    then show ?thesis using False k by (subst String_of_number.simps) simp
  qed
qed

text \<open>
  The names made with \<^verbatim>\<open>numberToString\<close> (logs, tables, MANIFEST) hold the number
  in six characters up to 999999: its decimal digits after as many zeros as it takes.
\<close>

lemma numberToString_six:
  "n \<le> 999999 \<Longrightarrow>
   length (numberToString n) = 6 \<and>
   numberToString n = replicate (6 - length (String_of_number n)) CHR ''0'' @ String_of_number n"
  using length_String_of_number[of n 6]
  by (simp add: numberToString_def numberToString_loop_pad)

text \<open>
  Claim C9. For \<open>1 \<le> n \<le> 999999\<close> every numbered file name holds \<open>n\<close> as six
  zero-padded decimal digits: logs, tables, MANIFEST and temp files. The first three
  do (\<open>numberToString_six\<close>); \<^verbatim>\<open>getTempFilename\<close> does not call
  \<^verbatim>\<open>numberToString\<close> and writes the number as it is: file 5 is
  \<^verbatim>\<open>5.dbtmp\<close> next to \<^verbatim>\<open>000005.log\<close>.
\<close>

theorem getTempFilename_not_padded:
  "getTempFilename dbpath 5 = Inr (path_resolve dbpath ''5.dbtmp'')
   \<and> getLogFilename dbpath 5 = path_resolve dbpath ''000005.log''
   \<and> getTableFilename dbpath 5 = path_resolve dbpath ''000005.ldb''
   \<and> getManifestFilename dbpath 5 = path_resolve dbpath ''MANIFEST-000005''"
  by (simp add: getTempFilename_def getLogFilename_def getTableFilename_def
      getManifestFilename_def String_of_number_5 numberToString_5)

section \<open>Trivial moves\<close>

lemma foldl_fileSize:
  "foldl (\<lambda>sum file. sum + fileSize file) a fs = a + sum_list (map fileSize fs)"
  by (induction fs arbitrary: a) auto

lemma totalFileSize_sum: "totalFileSize fs = sum_list (map fileSize fs)"
  by (simp add: totalFileSize_def foldl_fileSize)

text \<open>
  Where the input version and the grandparents of a compaction are set,
  \<^verbatim>\<open>isTrivialMove\<close> returns, and returns true exactly under the three conditions.
\<close>

lemma isTrivialMove_defined:
  "inputVersion c = Some v \<Longrightarrow> grandparents c = Some gs \<Longrightarrow>
   isTrivialMove c =
     Inr (length (fst (inputs c)) = 1 \<and> snd (inputs c) = [] \<and>
          sum_list (map fileSize gs) \<le> 10 * maxFileSize (versionSet_options v))"
  by (auto simp: isTrivialMove_def numInputFiles_def totalFileSize_sum
      maxGrandParentOverlapBytes_def targetFileSize_def)

lemma isTrivialMove_no_grandparents:
  "inputVersion c = Some v \<Longrightarrow> length (fst (inputs c)) = 1 \<Longrightarrow> snd (inputs c) = [] \<Longrightarrow>
   grandparents c = None \<Longrightarrow> isTrivialMove c = Inl TypeError"
  by (simp add: isTrivialMove_def numInputFiles_def)

text \<open>At level 4 a compaction of one file with no grandparent file is a trivial move.\<close>

lemma isTrivialMove_level4:
  "isTrivialMove
     (setupOtherInputs_grandparents
        ((Compaction_new options 4)\<lparr>inputVersion := Some v, inputs := ([f], [])\<rparr>) [])
   = Inr True"
  by (simp add: setupOtherInputs_grandparents_def Compaction_new_def kNumLevels_def
      isTrivialMove_def numInputFiles_def totalFileSize_def)

text \<open>
  Claim C6. \<^verbatim>\<open>c.isTrivialMove()\<close> returns true if and only if \<^verbatim>\<open>c.inputs[0]\<close>
  has exactly one file, \<^verbatim>\<open>c.inputs[1]\<close> is empty, and the files of
  \<^verbatim>\<open>c.grandparents\<close> total at most 10 times \<^verbatim>\<open>max_file_size\<close>. The "if" half
  fails on a compaction at level 5: the constructor leaves \<^verbatim>\<open>grandparents\<close>
  undefined and \<^verbatim>\<open>setupOtherInputs\<close> does not assign it there, so with one input
  file and nothing to merge, and no grandparent file at all, \<^verbatim>\<open>isTrivialMove\<close>
  throws where the claim has it return true.
\<close>

theorem isTrivialMove_level5_throws:
  "length (fst (inputs (setupOtherInputs_grandparents
       ((Compaction_new options 5)\<lparr>inputVersion := Some v, inputs := ([f], [])\<rparr>)
       overlapping))) = 1 \<and>
   snd (inputs (setupOtherInputs_grandparents
       ((Compaction_new options 5)\<lparr>inputVersion := Some v, inputs := ([f], [])\<rparr>)
       overlapping)) = [] \<and>
   grandparents (setupOtherInputs_grandparents
       ((Compaction_new options 5)\<lparr>inputVersion := Some v, inputs := ([f], [])\<rparr>)
       overlapping) = None \<and>
   isTrivialMove (setupOtherInputs_grandparents
       ((Compaction_new options 5)\<lparr>inputVersion := Some v, inputs := ([f], [])\<rparr>)
       overlapping) = Inl TypeError"
proof -
  have c: "setupOtherInputs_grandparents
       ((Compaction_new options 5)\<lparr>inputVersion := Some v, inputs := ([f], [])\<rparr>) overlapping
     = (Compaction_new options 5)\<lparr>inputVersion := Some v, inputs := ([f], [])\<rparr>"
    by (simp add: setupOtherInputs_grandparents_def Compaction_new_def kNumLevels_def)
  show ?thesis
    unfolding c by (simp add: Compaction_new_def isTrivialMove_def numInputFiles_def)
qed

section \<open>Manual compaction: the inputs of compactRange\<close>

lemma compactRange_loop_prefix: "\<exists>n. compactRange_loop limit tot fs = take n fs"
proof (induction fs arbitrary: tot)
  case Nil
  then show ?case by simp
next
  case (Cons f fs)
  show ?case
  proof (cases "tot + fileSize f \<ge> limit")
    case True
    then have "compactRange_loop limit tot (f # fs) = take 1 (f # fs)" by simp
    then show ?thesis by blast
  next
    case False
    from Cons[of "tot + fileSize f"] obtain n
      where "compactRange_loop limit (tot + fileSize f) fs = take n fs" by blast
    with False have "compactRange_loop limit tot (f # fs) = take (Suc n) (f # fs)" by simp
    then show ?thesis by blast
  qed
qed

lemma compactRange_loop_nonempty: "fs \<noteq> [] \<Longrightarrow> compactRange_loop limit tot fs \<noteq> []"
  by (cases fs) (auto simp: Let_def)

lemma compactRange_loop_butlast:
  "butlast (compactRange_loop limit tot fs) \<noteq> [] \<Longrightarrow>
   tot + sum_list (map fileSize (butlast (compactRange_loop limit tot fs))) < limit"
proof (induction fs arbitrary: tot)
  case Nil
  then show ?case by simp
next
  case (Cons f fs)
  show ?case
  proof (cases "tot + fileSize f \<ge> limit")
    case True
    with Cons.prems show ?thesis by simp
  next
    case False
    show ?thesis
    proof (cases "compactRange_loop limit (tot + fileSize f) fs = []")
      case True
      with False Cons.prems show ?thesis by simp
    next
      case ne: False
      show ?thesis
      proof (cases "butlast (compactRange_loop limit (tot + fileSize f) fs) = []")
        case True
        with False ne show ?thesis by simp
      next
        case b: False
        from Cons.IH[OF b] False ne show ?thesis by (simp add: add.assoc)
      qed
    qed
  qed
qed

lemma compactRange_loop_cut:
  "compactRange_loop limit tot fs \<noteq> fs \<Longrightarrow>
   limit \<le> tot + sum_list (map fileSize (compactRange_loop limit tot fs))"
proof (induction fs arbitrary: tot)
  case Nil
  then show ?case by simp
next
  case (Cons f fs)
  show ?case
  proof (cases "tot + fileSize f \<ge> limit")
    case True
    then show ?thesis by simp
  next
    case False
    with Cons.prems have "compactRange_loop limit (tot + fileSize f) fs \<noteq> fs" by simp
    from Cons.IH[OF this] False show ?thesis by (simp add: add.assoc)
  qed
qed

text \<open>
  Claim C5, as stated: for \<open>level > 0\<close> the level-\<open>L\<close> inputs that
  \<^verbatim>\<open>compactRange\<close> selects total at most \<^verbatim>\<open>max_file_size\<close>. It fails: with
  \<^verbatim>\<open>max_file_size\<close> at its default of 2 MiB and two overlapping files of 2000000
  bytes each, both are selected, 4000000 bytes.
\<close>

theorem compactRange_inputs_counterexample:
  "compactRange_inputs \<lparr>maxFileSize = 2097152\<rparr> 1
     [\<lparr>number = 4, fileSize = 2000000, smallest = [], largest = []\<rparr>,
      \<lparr>number = 5, fileSize = 2000000, smallest = [], largest = []\<rparr>,
      \<lparr>number = 6, fileSize = 100, smallest = [], largest = []\<rparr>]
   = Some [\<lparr>number = 4, fileSize = 2000000, smallest = [], largest = []\<rparr>,
           \<lparr>number = 5, fileSize = 2000000, smallest = [], largest = []\<rparr>]
   \<and> \<not> sum_list (map fileSize
           [\<lparr>number = 4, fileSize = 2000000, smallest = [], largest = []\<rparr>,
            \<lparr>number = 5, fileSize = 2000000, smallest = [], largest = []\<rparr>])
         \<le> maxFileSize \<lparr>maxFileSize = 2097152\<rparr>"
  by (simp add: compactRange_inputs_def VersionSet_maxFileSizeForLevel_def)

text \<open>
  Claim C5, amended: for \<open>level > 0\<close> the selected inputs are the overlapping files
  in their order up to and including the first one at which the running total reaches
  \<^verbatim>\<open>max_file_size\<close> (all of them when it is never reached). So they are a non-empty
  prefix of the overlapping files; without the last selected file they total less than
  \<^verbatim>\<open>max_file_size\<close> (when more than one file is selected); and where a file was left
  out the selected ones total at least \<^verbatim>\<open>max_file_size\<close>.
\<close>

theorem compactRange_inputs_bound:
  assumes "compactRange_inputs options lvl overlapping = Some sel" and "lvl > 0"
  shows "sel \<noteq> [] \<and> (\<exists>n. sel = take n overlapping) \<and>
         (butlast sel \<noteq> [] \<longrightarrow> sum_list (map fileSize (butlast sel)) < maxFileSize options) \<and>
         (sel \<noteq> overlapping \<longrightarrow> maxFileSize options \<le> sum_list (map fileSize sel))"
proof -
  from assms have ne: "overlapping \<noteq> []"
    and sel: "sel = compactRange_loop (maxFileSize options) 0 overlapping"
    by (auto simp: compactRange_inputs_def VersionSet_maxFileSizeForLevel_def split: if_splits)
  have "sel \<noteq> []" using ne sel by (simp add: compactRange_loop_nonempty)
  moreover have "\<exists>n. sel = take n overlapping"
    unfolding sel by (rule compactRange_loop_prefix)
  moreover have "butlast sel \<noteq> [] \<longrightarrow> sum_list (map fileSize (butlast sel)) < maxFileSize options"
    unfolding sel using compactRange_loop_butlast[of "maxFileSize options" 0 overlapping] by simp
  moreover have "sel \<noteq> overlapping \<longrightarrow> maxFileSize options \<le> sum_list (map fileSize sel)"
    unfolding sel using compactRange_loop_cut[of "maxFileSize options" 0 overlapping] by simp
  ultimately show ?thesis by blast
qed

theorem compactRange_inputs_bound_witness:
  "compactRange_inputs \<lparr>maxFileSize = 2097152\<rparr> 1
     [\<lparr>number = 4, fileSize = 2000000, smallest = [], largest = []\<rparr>,
      \<lparr>number = 5, fileSize = 2000000, smallest = [], largest = []\<rparr>,
      \<lparr>number = 6, fileSize = 100, smallest = [], largest = []\<rparr>]
   = Some [\<lparr>number = 4, fileSize = 2000000, smallest = [], largest = []\<rparr>,
           \<lparr>number = 5, fileSize = 2000000, smallest = [], largest = []\<rparr>]
   \<and> (1::nat) > 0
   \<and> sum_list (map fileSize
         (butlast [\<lparr>number = 4, fileSize = 2000000, smallest = [], largest = []\<rparr>,
                   \<lparr>number = 5, fileSize = 2000000, smallest = [], largest = []\<rparr>]))
       < maxFileSize \<lparr>maxFileSize = 2097152\<rparr>
   \<and> maxFileSize \<lparr>maxFileSize = 2097152\<rparr>
       \<le> sum_list (map fileSize
           [\<lparr>number = 4, fileSize = 2000000, smallest = [], largest = []\<rparr>,
            \<lparr>number = 5, fileSize = 2000000, smallest = [], largest = []\<rparr>])"
proof -
  have run: "compactRange_inputs \<lparr>maxFileSize = 2097152\<rparr> 1
     [\<lparr>number = 4, fileSize = 2000000, smallest = [], largest = []\<rparr>,
      \<lparr>number = 5, fileSize = 2000000, smallest = [], largest = []\<rparr>,
      \<lparr>number = 6, fileSize = 100, smallest = [], largest = []\<rparr>]
   = Some [\<lparr>number = 4, fileSize = 2000000, smallest = [], largest = []\<rparr>,
           \<lparr>number = 5, fileSize = 2000000, smallest = [], largest = []\<rparr>]"
    by (simp add: compactRange_inputs_def VersionSet_maxFileSizeForLevel_def)
  have pos: "(1::nat) > 0" by simp
  from compactRange_inputs_bound[OF run pos] run show ?thesis by simp
qed

section \<open>logAndApply: a failed call\<close>

lemma getManifestFilename_nonempty: "getManifestFilename dbpath n \<noteq> []"
  by (simp add: getManifestFilename_def path_resolve_def)

text \<open>
  Claim C4. If \<^verbatim>\<open>logAndApply\<close> returns a status that is not ok, then the MANIFEST
  file it created in that call (it creates one exactly when no manifest writer is
  open) is deleted, and the new version is not installed: the current version is the
  one from before the call.
\<close>

theorem logAndApply_failure:
  "logAndApply oc build env vs edit = Inr (ok, vs', env') \<Longrightarrow> \<not> ok \<Longrightarrow>
   vs_current vs' = vs_current vs \<and>
   (vs_manifestWriter vs = None \<longrightarrow>
      getManifestFilename (vs_dbpath vs) (vs_manifestFileNumber vs) \<notin> env_files env' \<and>
      vs_manifestWriter vs' = None)"
  by (auto simp: logAndApply_def Let_def getManifestFilename_nonempty
      split: sum.splits if_splits)

theorem logAndApply_failure_witness:
  "logAndApply \<lparr>open_ok = True, snapshot_ok = True, record_ok = False, current_ok = True,
        close_ok = True, unlink_ok = True\<rparr> (\<lambda>v e. Inr (v\<lparr>files := [[]]\<rparr>))
      \<lparr>env_files = {''/db/000003.log''}, env_current = None\<rparr>
      \<lparr>vs_current = \<lparr>files = [], versionSet_options = \<lparr>maxFileSize = 2097152\<rparr>\<rparr>,
       vs_logNumber = 3, vs_prevLogNumber = 0, vs_lastSequence = 0, vs_manifestFileNumber = 5,
       vs_nextFileNumber = 6, vs_dbpath = ''/db'', vs_manifestWriter = None\<rparr>
      \<lparr>hasLogNumber = False, edit_logNumber = 0, hasPrevLogNumber = False,
       edit_prevLogNumber = 0, edit_nextFileNumber = 0, edit_lastSequence = 0\<rparr>
     = Inr (False,
        \<lparr>vs_current = \<lparr>files = [], versionSet_options = \<lparr>maxFileSize = 2097152\<rparr>\<rparr>,
         vs_logNumber = 3, vs_prevLogNumber = 0, vs_lastSequence = 0, vs_manifestFileNumber = 5,
         vs_nextFileNumber = 6, vs_dbpath = ''/db'', vs_manifestWriter = None\<rparr>,
        \<lparr>env_files = {''/db/000003.log''}, env_current = None\<rparr>)
   \<and> getManifestFilename ''/db'' 5 \<notin> {''/db/000003.log''}"
proof -
  let ?oc = "\<lparr>open_ok = True, snapshot_ok = True, record_ok = False, current_ok = True,
        close_ok = True, unlink_ok = True\<rparr>"
  let ?vs = "\<lparr>vs_current = \<lparr>files = [], versionSet_options = \<lparr>maxFileSize = 2097152\<rparr>\<rparr>,
       vs_logNumber = 3, vs_prevLogNumber = 0, vs_lastSequence = 0, vs_manifestFileNumber = 5,
       vs_nextFileNumber = 6, vs_dbpath = ''/db'', vs_manifestWriter = None\<rparr>"
  let ?env = "\<lparr>env_files = {''/db/000003.log''}, env_current = None\<rparr>"
  let ?edit = "\<lparr>hasLogNumber = False, edit_logNumber = 0, hasPrevLogNumber = False,
       edit_prevLogNumber = 0, edit_nextFileNumber = 0, edit_lastSequence = 0\<rparr>"
  have name: "getManifestFilename ''/db'' 5 = ''/db/MANIFEST-000005''"
    by (simp add: getManifestFilename_def numberToString_5 path_resolve_def)
  have run: "logAndApply ?oc (\<lambda>v e. Inr (v\<lparr>files := [[]]\<rparr>)) ?env ?vs ?edit
      = Inr (False, ?vs, ?env)"
    by (simp add: logAndApply_def logAndApply_prepare_def Let_def name)
  from logAndApply_failure[OF run] run show ?thesis by simp
qed

section \<open>The immutable flag of a MemTable\<close>

lemma MemTable_add_immutable:
  "MemTable_add m sequence vt key val = Inr m' \<Longrightarrow> m_immutable m' = m_immutable m"
  by (auto simp: MemTable_add_def Let_def split: sum.splits if_splits)

lemma MemTable_apply_immutable:
  "m_immutable m \<Longrightarrow> m_immutable (MemTable_apply m call)"
proof (cases call)
  case (Add sequence vt key val)
  assume "m_immutable m"
  then show ?thesis using Add MemTable_add_immutable[of m sequence vt key val]
    by (auto split: sum.splits)
qed (auto simp: MemTable_ref_def MemTable_unref_def MemTable_set_immutable_def)

text \<open>
  Claim C10. The immutable flag of a \<^verbatim>\<open>MemTable\<close> is monotone: it is false in a
  new memtable, and once it is true no sequence of calls, assigning false to the
  setter among them, makes it false again.
\<close>

theorem MemTable_immutable_monotone:
  "\<not> m_immutable (MemTable_new icmp) \<and>
   (m_immutable m \<longrightarrow> m_immutable (foldl MemTable_apply m calls))"
proof
  show "\<not> m_immutable (MemTable_new icmp)"
    by (simp add: MemTable_new_def)
next
  have "m_immutable m' \<Longrightarrow> m_immutable (foldl MemTable_apply m' calls)" for m'
  proof (induction calls arbitrary: m')
    case Nil
    then show ?case by simp
  next
    case (Cons call calls)
    from Cons.prems have "m_immutable (MemTable_apply m' call)"
      by (rule MemTable_apply_immutable)
    then have "m_immutable (foldl MemTable_apply (MemTable_apply m' call) calls)"
      by (rule Cons.IH)
    then show ?case by simp
  qed
  then show "m_immutable m \<longrightarrow> m_immutable (foldl MemTable_apply m calls)"
    by blast
qed

theorem MemTable_immutable_monotone_witness:
  "m_immutable (MemTable_apply (MemTable_new BytewiseComparator) (SetImmutable True)) \<and>
   m_immutable (foldl MemTable_apply
      (MemTable_apply (MemTable_new BytewiseComparator) (SetImmutable True))
      [SetImmutable False, Add 7 kTypeValue [107] (Some [118]), Unref])"
proof -
  have h: "m_immutable (MemTable_apply (MemTable_new BytewiseComparator) (SetImmutable True))"
    by (simp add: MemTable_new_def MemTable_set_immutable_def)
  from MemTable_immutable_monotone[of BytewiseComparator
      "MemTable_apply (MemTable_new BytewiseComparator) (SetImmutable True)"
      "[SetImmutable False, Add 7 kTypeValue [107] (Some [118]), Unref]"] h
  show ?thesis by blast
qed

section \<open>The shortest separator of two internal keys\<close>

lemma packSequenceAndType_max:
  "packSequenceAndType kMaxSequenceNumber kValueTypeForSeek = Inr 18446744073709551361"
  by (simp add: packSequenceAndType_def kMaxSequenceNumber_def kValueTypeForSeek_def)

lemma encodeFixed64_packed_max:
  "encodeFixed64 18446744073709551361 = Inr [1, 255, 255, 255, 255, 255, 255, 255]"
  by (simp add: encodeFixed64_def)

text \<open>The byte-lexicographic comparator keeps the contract of a user comparator.\<close>

lemma Buffer_compare_refl: "Buffer_compare x x = 0"
  by (induction x) auto

lemma Buffer_compare_anti: "Buffer_compare x y < 0 \<Longrightarrow> 0 < Buffer_compare y x"
  by (induction x y rule: Buffer_compare.induct) (auto split: if_splits)

lemma byte_succ_less: "x < 255 \<Longrightarrow> unat x + 1 < unat y \<Longrightarrow> x + 1 < (y :: byte)"
  by (simp add: word_less_nat_alt unat_word_ariths unat_arith_simps)

lemma Bytewise_findShortestSeparator_less:
  "Buffer_compare s l < 0 \<Longrightarrow> Buffer_compare (Bytewise_findShortestSeparator s l) l < 0"
proof (induction s l rule: Bytewise_findShortestSeparator.induct)
  case (1 limit)
  then show ?case by simp
next
  case (2 x xs)
  then show ?case by simp
next
  case (3 x xs y ys)
  show ?case
  proof (cases "x = y")
    case True
    with 3 show ?thesis by simp
  next
    case ne: False
    show ?thesis
    proof (cases "x < 255 \<and> unat x + 1 < unat y")
      case True
      then have "x + 1 < y" using byte_succ_less by blast
      with ne True show ?thesis by simp
    next
      case False
      then have "Bytewise_findShortestSeparator (x # xs) (y # ys) = x # xs"
        using ne by auto
      with 3(2) show ?thesis by simp
    qed
  qed
qed

lemma BytewiseComparator_contract:
  "(\<forall>x. ucompare BytewiseComparator x x = 0) \<and>
   (\<forall>x y. ucompare BytewiseComparator x y < 0 \<longrightarrow> 0 < ucompare BytewiseComparator y x) \<and>
   (\<forall>s l. ucompare BytewiseComparator s l < 0 \<longrightarrow>
      (\<exists>t. ufindShortestSeparator BytewiseComparator s l = Inr t \<and>
           ucompare BytewiseComparator t l < 0))"
  by (simp add: BytewiseComparator_def Buffer_compare_refl Buffer_compare_anti
      Bytewise_findShortestSeparator_less)

text \<open>
  The two ways through \<^verbatim>\<open>findShortestSeparator\<close>, for \<open>tmp\<close> the user key that
  the user comparator made of the user key of \<open>start\<close>: where \<open>tmp\<close> is shorter
  and larger, the result is \<open>tmp\<close> with the tail \<open>(kMaxSequenceNumber,
  kValueTypeForSeek)\<close>, if the two asserts hold; otherwise \<open>start\<close> is left alone.
\<close>

lemma findShortestSeparator_shortened:
  assumes us: "extractUserKey start = Inr us"
    and ul: "extractUserKey limit = Inr ul"
    and tmp: "ufindShortestSeparator uc us ul = Inr tmp"
    and shorter: "length tmp < length us"
    and larger: "ucompare uc us tmp < 0"
    and below: "ucompare uc tmp ul < 0"
  shows "InternalKeyComparator_findShortestSeparator uc start limit
           = Inr (tmp @ [1, 255, 255, 255, 255, 255, 255, 255])"
    and "extractUserKey (tmp @ [1, 255, 255, 255, 255, 255, 255, 255]) = Inr tmp"
proof -
  let ?tail = "[1, 255, 255, 255, 255, 255, 255, 255] :: Buffer"
  show ut: "extractUserKey (tmp @ ?tail) = Inr tmp"
    by (rule extractUserKey_append) simp
  have c1: "InternalKeyComparator_compare uc start (tmp @ ?tail) = Inr (ucompare uc us tmp)"
    using compare_user_keys[OF us ut] larger by simp
  have c2: "InternalKeyComparator_compare uc (tmp @ ?tail) limit = Inr (ucompare uc tmp ul)"
    using compare_user_keys[OF ut ul] below by simp
  show "InternalKeyComparator_findShortestSeparator uc start limit = Inr (tmp @ ?tail)"
    using shorter larger below
    by (simp add: InternalKeyComparator_findShortestSeparator_def us ul tmp
        packSequenceAndType_max encodeFixed64_packed_max c1 c2 Let_def)
qed

lemma findShortestSeparator_unchanged:
  assumes "extractUserKey start = Inr us"
    and "extractUserKey limit = Inr ul"
    and "ufindShortestSeparator uc us ul = Inr tmp"
    and "\<not> (length tmp < length us \<and> ucompare uc us tmp < 0)"
  shows "InternalKeyComparator_findShortestSeparator uc start limit = Inr start"
  using assms by (auto simp: InternalKeyComparator_findShortestSeparator_def)

text \<open>
  Claim C7. For internal keys \<open>start\<close> and \<open>limit\<close> whose user keys are strictly
  ordered, \<^verbatim>\<open>findShortestSeparator(start, limit)\<close> returns, and the updated
  \<open>start\<close> compares greater than or equal to the original \<open>start\<close> and strictly
  less than \<open>limit\<close> in internal-key order. The user comparator is the one given to
  the constructor; it is taken to keep its contract: a key equals itself, \<open>x < y\<close>
  gives \<open>y > x\<close>, and its own \<^verbatim>\<open>findShortestSeparator\<close> leaves a start below the
  limit below the limit.
\<close>

theorem findShortestSeparator_between:
  assumes us: "extractUserKey start = Inr us"
    and ul: "extractUserKey limit = Inr ul"
    and lt: "ucompare uc us ul < 0"
    and refl: "\<forall>x. ucompare uc x x = 0"
    and anti: "\<forall>x y. ucompare uc x y < 0 \<longrightarrow> 0 < ucompare uc y x"
    and sep: "\<forall>s l. ucompare uc s l < 0 \<longrightarrow>
                (\<exists>t. ufindShortestSeparator uc s l = Inr t \<and> ucompare uc t l < 0)"
  shows "\<exists>start' c1 c2.
           InternalKeyComparator_findShortestSeparator uc start limit = Inr start' \<and>
           InternalKeyComparator_compare uc start' start = Inr c1 \<and> 0 \<le> c1 \<and>
           InternalKeyComparator_compare uc start' limit = Inr c2 \<and> c2 < 0"
proof -
  from sep lt obtain tmp where tmp: "ufindShortestSeparator uc us ul = Inr tmp"
    and below: "ucompare uc tmp ul < 0" by blast
  let ?tail = "[1, 255, 255, 255, 255, 255, 255, 255] :: Buffer"
  show ?thesis
  proof (cases "length tmp < length us \<and> ucompare uc us tmp < 0")
    case True
    then have shorter: "length tmp < length us" and larger: "ucompare uc us tmp < 0"
      by simp_all
    note run = findShortestSeparator_shortened(1)[OF us ul tmp shorter larger below]
    note ut = findShortestSeparator_shortened(2)[OF us ul tmp shorter larger below]
    from larger anti have gt: "0 < ucompare uc tmp us" by blast
    then have "InternalKeyComparator_compare uc (tmp @ ?tail) start = Inr (ucompare uc tmp us)"
      using compare_user_keys[OF ut us] by simp
    moreover have
      "InternalKeyComparator_compare uc (tmp @ ?tail) limit = Inr (ucompare uc tmp ul)"
      using compare_user_keys[OF ut ul] below by simp
    ultimately show ?thesis using run gt below by auto
  next
    case False
    note run = findShortestSeparator_unchanged[OF us ul tmp False]
    moreover have "InternalKeyComparator_compare uc start start = Inr 0"
      using compare_same[OF us] refl by simp
    moreover have "InternalKeyComparator_compare uc start limit = Inr (ucompare uc us ul)"
      using compare_user_keys[OF us ul] lt by simp
    ultimately show ?thesis using lt by auto
  qed
qed

theorem findShortestSeparator_between_witness:
  "InternalKeyComparator_findShortestSeparator BytewiseComparator
     [1, 2, 3, 4, 5, 0, 0, 0, 0, 0, 0, 1] [1, 9, 3, 0, 0, 0, 0, 0, 0, 1]
     = Inr [1, 3, 1, 255, 255, 255, 255, 255, 255, 255] \<and>
   InternalKeyComparator_compare BytewiseComparator
     [1, 3, 1, 255, 255, 255, 255, 255, 255, 255] [1, 2, 3, 4, 5, 0, 0, 0, 0, 0, 0, 1]
     = Inr 1 \<and>
   InternalKeyComparator_compare BytewiseComparator
     [1, 3, 1, 255, 255, 255, 255, 255, 255, 255] [1, 9, 3, 0, 0, 0, 0, 0, 0, 1]
     = Inr (- 1)"
proof -
  let ?start = "[1, 2, 3, 4, 5, 0, 0, 0, 0, 0, 0, 1] :: Buffer"
  let ?limit = "[1, 9, 3, 0, 0, 0, 0, 0, 0, 1] :: Buffer"
  let ?sep = "[1, 3, 1, 255, 255, 255, 255, 255, 255, 255] :: Buffer"
  have us: "extractUserKey ?start = Inr [1, 2, 3, 4]"
    using extractUserKey_append[of "[5, 0, 0, 0, 0, 0, 0, 1]" "[1, 2, 3, 4]"] by simp
  have ul: "extractUserKey ?limit = Inr [1, 9]"
    using extractUserKey_append[of "[3, 0, 0, 0, 0, 0, 0, 1]" "[1, 9]"] by simp
  have usep: "extractUserKey ?sep = Inr [1, 3]"
    using extractUserKey_append[of "[1, 255, 255, 255, 255, 255, 255, 255]" "[1, 3]"] by simp
  have lt: "ucompare BytewiseComparator [1, 2, 3, 4] [1, 9] < 0"
    by (simp add: BytewiseComparator_def)
  have refl: "\<forall>x. ucompare BytewiseComparator x x = 0"
    using BytewiseComparator_contract by blast
  have anti: "\<forall>x y. ucompare BytewiseComparator x y < 0 \<longrightarrow> 0 < ucompare BytewiseComparator y x"
    using BytewiseComparator_contract by blast
  have sep: "\<forall>s l. ucompare BytewiseComparator s l < 0 \<longrightarrow>
      (\<exists>t. ufindShortestSeparator BytewiseComparator s l = Inr t \<and>
           ucompare BytewiseComparator t l < 0)"
    using BytewiseComparator_contract by blast
  have c1: "InternalKeyComparator_compare BytewiseComparator ?sep ?start = Inr 1"
    using compare_user_keys[OF usep us, of BytewiseComparator]
    by (simp add: BytewiseComparator_def)
  have c2: "InternalKeyComparator_compare BytewiseComparator ?sep ?limit = Inr (- 1)"
    using compare_user_keys[OF usep ul, of BytewiseComparator]
    by (simp add: BytewiseComparator_def)
  have c0: "InternalKeyComparator_compare BytewiseComparator ?start ?sep = Inr (- 1)"
    using compare_user_keys[OF us usep, of BytewiseComparator]
    by (simp add: BytewiseComparator_def)
  have run: "InternalKeyComparator_findShortestSeparator BytewiseComparator ?start ?limit
      = Inr ?sep"
    using c0 c2
    by (simp add: InternalKeyComparator_findShortestSeparator_def us ul
        packSequenceAndType_max encodeFixed64_packed_max BytewiseComparator_def)
  from findShortestSeparator_between[OF us ul lt refl anti sep] run c1 c2
  show ?thesis by simp
qed

text \<open>
  With the byte-lexicographic comparator nothing is left to assume: the call returns
  for all internal keys with strictly ordered user keys, and its result lies between.
\<close>

lemma findShortestSeparator_bytewise:
  assumes us: "extractUserKey start = Inr us"
    and ul: "extractUserKey limit = Inr ul"
    and lt: "Buffer_compare us ul < 0"
  shows "\<exists>start' c1 c2.
           InternalKeyComparator_findShortestSeparator BytewiseComparator start limit
             = Inr start' \<and>
           InternalKeyComparator_compare BytewiseComparator start' start = Inr c1 \<and> 0 \<le> c1 \<and>
           InternalKeyComparator_compare BytewiseComparator start' limit = Inr c2 \<and> c2 < 0"
proof -
  let ?uc = BytewiseComparator
  let ?tmp = "Bytewise_findShortestSeparator us ul"
  let ?tail = "[1, 255, 255, 255, 255, 255, 255, 255] :: Buffer"
  have cmp: "ucompare ?uc = Buffer_compare"
    by (simp add: BytewiseComparator_def)
  have tmp: "ufindShortestSeparator ?uc us ul = Inr ?tmp"
    by (simp add: BytewiseComparator_def)
  have below: "ucompare ?uc ?tmp ul < 0"
    using lt by (simp add: cmp Bytewise_findShortestSeparator_less)
  show ?thesis
  proof (cases "length ?tmp < length us \<and> ucompare ?uc us ?tmp < 0")
    case True
    then have shorter: "length ?tmp < length us" and larger: "ucompare ?uc us ?tmp < 0"
      by simp_all
    note run = findShortestSeparator_shortened(1)[OF us ul tmp shorter larger below]
    note ut = findShortestSeparator_shortened(2)[OF us ul tmp shorter larger below]
    from larger have gt: "0 < ucompare ?uc ?tmp us"
      by (simp add: cmp Buffer_compare_anti)
    then have "InternalKeyComparator_compare ?uc (?tmp @ ?tail) start
        = Inr (ucompare ?uc ?tmp us)"
      using compare_user_keys[OF ut us] by simp
    moreover have "InternalKeyComparator_compare ?uc (?tmp @ ?tail) limit
        = Inr (ucompare ?uc ?tmp ul)"
      using compare_user_keys[OF ut ul] below by simp
    ultimately show ?thesis using run gt below by auto
  next
    case False
    note run = findShortestSeparator_unchanged[OF us ul tmp False]
    moreover have "InternalKeyComparator_compare ?uc start start = Inr 0"
      using compare_same[OF us] by (simp add: cmp Buffer_compare_refl)
    moreover have "InternalKeyComparator_compare ?uc start limit = Inr (ucompare ?uc us ul)"
      using compare_user_keys[OF us ul] lt by (simp add: cmp)
    ultimately show ?thesis using lt by (auto simp: cmp)
  qed
qed

section \<open>Bloom filters with a stored hash count above 30\<close>

lemma BitBuffer_get_zeros: "set buf \<subseteq> {0} \<Longrightarrow> \<not> BitBuffer_get buf idx"
proof (cases idx)
  case None
  assume z: "set buf \<subseteq> {0}"
  then have "buf \<noteq> [] \<Longrightarrow> buf ! 0 = 0" by (cases buf) auto
  with None show ?thesis by (auto simp: BitBuffer_get_def)
next
  case (Some i)
  assume z: "set buf \<subseteq> {0}"
  then have "\<And>p. p < length buf \<Longrightarrow> buf ! p = 0" using nth_mem by fastforce
  with Some show ?thesis by (auto simp: BitBuffer_get_def Let_def)
qed

lemma round_069_10: "round_069 10 = 7"
  by (simp add: round_069_def)

lemma varint_encode_7: "varint_encode 7 = [7]"
  by (simp add: varint_encode.simps)

text \<open>
  Whatever hash count the filter stores, the constructor that \<^verbatim>\<open>keyMayMatch\<close> calls
  (with the default 10 bits per key) leaves \<^verbatim>\<open>kNumber\<close> at 7, so the test
  \<^verbatim>\<open>filter.kNumber > 30\<close> is never true.
\<close>

lemma BloomFilter_new_kNumber:
  "BloomFilter_new buffer 10 = Inr f \<Longrightarrow> bf_kNumber f = 7"
  by (auto simp: BloomFilter_new_def Let_def round_069_10 split: if_splits sum.splits)

lemma slice_but_last: "slice (xs @ [b]) 0 (int (length (xs @ [b])) - 1) = xs"
  by (simp add: slice_def js_index_def Let_def)

lemma BitBuffer_resizeBits_zeros:
  "set (BitBuffer_resizeBits (replicate n 0) bits) \<subseteq> {0}"
  by (auto simp: BitBuffer_resizeBits_def Let_def)

lemma BloomFilter_new_k31:
  "BloomFilter_new (replicate n 0 @ [31]) 10 =
     Inr \<lparr>bf_buffer = replicate n 0 @ [7], bf_offset = 0, bf_size = Suc n, bf_kNumber = 7,
          bf_bitBuffer = BitBuffer_resizeBits (replicate n 0) 7, bf_bitsPerKey = 10\<rparr>"
  using slice_but_last[of "replicate n 0" 31] slice_tail8[of "replicate n 0" "[31]"]
  by (simp add: BloomFilter_new_def Let_def round_069_10 varint_encode_7)

lemma keyMayMatch_loop_first_miss:
  "0 < n \<Longrightarrow> \<not> BitBuffer_get bitBuffer (js_rem h (int (BitBuffer_bits bitBuffer))) \<Longrightarrow>
   keyMayMatch_loop bitBuffer n h delta = False"
  by (cases n) (simp_all add: Let_def)

text \<open>
  Claim C8. For an encoded filter whose stored hash count is above 30,
  \<^verbatim>\<open>keyMayMatch\<close> returns true for every key without probing a bit. It does not:
  on a filter of zero bytes (64 zero bits, say) with the stored count 31 it probes, and
  answers false for every key, whatever the hash function.
\<close>

theorem keyMayMatch_k31_probes:
  "keyMayMatch hash key (replicate n 0 @ [31]) = Inr False"
proof -
  have "\<not> BitBuffer_get (BitBuffer_resizeBits (replicate n 0) 7) idx" for idx
    by (rule BitBuffer_get_zeros) (rule BitBuffer_resizeBits_zeros)
  then have "keyMayMatch_loop (BitBuffer_resizeBits (replicate n 0) 7) 7 h d = False" for h d
    by (intro keyMayMatch_loop_first_miss) simp_all
  then show ?thesis
    by (simp add: keyMayMatch_def BloomFilter_new_k31 Let_def)
qed

end
